theory Spec2Isabelle
  imports Main "HOL-Library.Word"
begin

unbundle bit_operations_syntax

section \<open>Data model of package securestore\<close>

type_synonym byte = "8 word"

text \<open>
  Go errors are values. The package's own sentinels are \<open>ErrKeyringUnavailable\<close> and
  \<open>ErrKeyringInvalid\<close>; \<open>ErrKeyNotFound\<close> is the keyring library's sentinel, compared by
  identity in the source. \<open>Errorf m\<close> is an error built by \<open>fmt.Errorf\<close> in this package
  with the formatted message \<open>m\<close>; \<open>LibError m\<close> is any other error value handed back by
  a collaborator (keyring, gzip, io), with its message.
\<close>

datatype error =
    ErrKeyringUnavailable
  | ErrKeyringInvalid
  | ErrKeyNotFound
  | Errorf string
  | LibError string

definition KindInternetPassword :: string where
  "KindInternetPassword = ''Internet password''"

definition ItemKey :: string where
  "ItemKey = ''RedHatSSO''"

definition CollectionName :: string where
  "CollectionName = ''login''"

definition MaxWindowsByteSize :: nat where
  "MaxWindowsByteSize = 2500"

text \<open>The backend type constants of the keyring library that the package names.\<close>

definition WinCredBackend :: string where
  "WinCredBackend = ''wincred''"

definition KeychainBackend :: string where
  "KeychainBackend = ''keychain''"

definition SecretServiceBackend :: string where
  "SecretServiceBackend = ''secret-service''"

definition PassBackend :: string where
  "PassBackend = ''pass''"

definition AllowedBackends :: "string list" where
  "AllowedBackends = [WinCredBackend, KeychainBackend, SecretServiceBackend, PassBackend]"

fun strings_Join :: "string list \<Rightarrow> string \<Rightarrow> string" where
  "strings_Join [] sep = []"
| "strings_Join [x] sep = x"
| "strings_Join (x # y # ys) sep = x @ sep @ strings_Join (y # ys) sep"

fun has_prefix :: "string \<Rightarrow> string \<Rightarrow> bool" where
  "has_prefix s [] = True"
| "has_prefix [] (c # cs) = False"
| "has_prefix (d # ds) (c # cs) = (d = c \<and> has_prefix ds cs)"

fun strings_Contains :: "string \<Rightarrow> string \<Rightarrow> bool" where
  "strings_Contains [] substr = has_prefix [] substr"
| "strings_Contains (d # ds) substr =
     (has_prefix (d # ds) substr \<or> strings_Contains ds substr)"

text \<open>The decimal rendering that \<open>%d\<close> gives a non-negative integer.\<close>

definition digit_char :: "nat \<Rightarrow> char" where
  "digit_char d = ''0123456789'' ! (d mod 10)"

fun format_d :: "nat \<Rightarrow> string" where
  "format_d n = (if n < 10 then [digit_char n] else format_d (n div 10) @ [digit_char n])"

text \<open>The method \<open>Error()\<close> of an error value.\<close>

fun Error :: "error \<Rightarrow> string" where
  "Error ErrKeyringUnavailable = ''keyring is valid but is not available on the current OS''"
| "Error ErrKeyringInvalid =
     ''keyring is invalid, expected one of: ['' @ strings_Join AllowedBackends '', '' @ '']''"
| "Error ErrKeyNotFound = ''The specified item could not be found in the keyring''"
| "Error (Errorf m) = m"
| "Error (LibError m) = m"

record item =
  Key :: string
  Data :: "byte list"
  Label :: string
  Description :: string

record config =
  cfg_AllowedBackends :: "string list"
  ServiceName :: string
  KeychainName :: string
  KeychainTrustApplication :: bool
  KeychainSynchronizable :: bool
  KeychainAccessibleWhenUnlocked :: bool
  WinCredPrefix :: string
  LibSecretCollectionName :: string

definition getKeyringConfig :: "string \<Rightarrow> config" where
  "getKeyringConfig backend =
     \<lparr> cfg_AllowedBackends = [backend],
       ServiceName = ItemKey,
       KeychainName = CollectionName,
       KeychainTrustApplication = True,
       KeychainSynchronizable = False,
       KeychainAccessibleWhenUnlocked = False,
       WinCredPrefix = ItemKey,
       LibSecretCollectionName = CollectionName \<rparr>"

section \<open>The keyring collaborator\<close>

text \<open>
  Modelled from the spec: the keyring library (\<open>github.com/99designs/keyring\<close>) is
  not part of the repository. The spec gives its surface: \<open>open\<close> answers a handle or an
  error, \<open>get\<close> an item, not-found or an error, \<open>set\<close> success or an error,
  \<open>remove\<close> success, not-found or an error, and the list of available backends is a
  sequence of backend identifiers, each reported at most once. It is modelled as the state the package
  talks to: the backends the operating system reports, one collection of items per backend,
  the faults with which the library may answer an open, a get, a set or a remove on a
  backend, and the trace of the store operations performed so far (oldest first). A write
  replaces the item under its key.
\<close>

datatype call =
    CallOpen config
  | CallGet string string
  | CallSet string item
  | CallRemove string string

record world =
  os_backends :: "string list"
  open_fault :: "string \<Rightarrow> error option"
  get_fault :: "string \<Rightarrow> error option"
  set_fault :: "string \<Rightarrow> error option"
  remove_fault :: "string \<Rightarrow> error option"
  items :: "string \<Rightarrow> string \<rightharpoonup> item"
  calls :: "call list"

definition logged :: "world \<Rightarrow> call \<Rightarrow> world" where
  "logged w c = w\<lparr>calls := calls w @ [c]\<rparr>"

definition keyring_AvailableBackends :: "world \<Rightarrow> string list" where
  "keyring_AvailableBackends w = os_backends w"

text \<open>
  \<open>keyring.Open\<close> with a configuration that restricts the library to the listed
  backends: the library tries them in order and the handle it returns is the first
  backend that opens. The package always lists exactly one backend; its fault, if any, is
  the error of the call.
\<close>

fun open_first :: "world \<Rightarrow> string list \<Rightarrow> error + string" where
  "open_first w [] = Inl (LibError ''Specified keyring backend not available'')"
| "open_first w (b # bs) =
     (case open_fault w b of
        Some e \<Rightarrow> (if bs = [] then Inl e else open_first w bs)
      | None \<Rightarrow> Inr b)"

definition keyring_Open :: "world \<Rightarrow> config \<Rightarrow> (error + string) \<times> world" where
  "keyring_Open w cfg =
     (open_first w (cfg_AllowedBackends cfg), logged w (CallOpen cfg))"

definition ring_Get :: "world \<Rightarrow> string \<Rightarrow> string \<Rightarrow> (error + item) \<times> world" where
  "ring_Get w ring k =
     (let w' = logged w (CallGet ring k) in
      case get_fault w ring of
        Some e \<Rightarrow> (Inl e, w')
      | None \<Rightarrow>
          (case items w ring k of
             None \<Rightarrow> (Inl ErrKeyNotFound, w')
           | Some i \<Rightarrow> (Inr i, w')))"

definition ring_Set :: "world \<Rightarrow> string \<Rightarrow> item \<Rightarrow> error option \<times> world" where
  "ring_Set w ring i =
     (let w' = logged w (CallSet ring i) in
      case set_fault w ring of
        Some e \<Rightarrow> (Some e, w')
      | None \<Rightarrow> (None, w'\<lparr>items := (items w)(ring := (items w ring)(Key i \<mapsto> i))\<rparr>))"

definition ring_Remove :: "world \<Rightarrow> string \<Rightarrow> string \<Rightarrow> error option \<times> world" where
  "ring_Remove w ring k =
     (let w' = logged w (CallRemove ring k) in
      case remove_fault w ring of
        Some e \<Rightarrow> (Some e, w')
      | None \<Rightarrow>
          (case items w ring k of
             None \<Rightarrow> (Some ErrKeyNotFound, w')
           | Some i \<Rightarrow> (None, w'\<lparr>items := (items w)(ring := (items w ring)(k := None))\<rparr>)))"

section \<open>The gzip collaborator\<close>

text \<open>
  Package \<open>compress/gzip\<close> is taken as a parameter: a writer that accepts the bytes
  (\<open>gz_Write\<close>, standing for \<open>NewWriter\<close> and \<open>Write\<close>) and is then closed
  (\<open>gz_Close\<close>, giving the buffer's bytes), and a reader that is created on the stored bytes
  (\<open>gz_NewReader\<close>) and then read to the end (\<open>gz_ReadAll\<close>). Each step can fail.
\<close>

record ('wr, 'rd) gzip =
  gz_Write :: "byte list \<Rightarrow> error + 'wr"
  gz_Close :: "'wr \<Rightarrow> error + byte list"
  gz_NewReader :: "byte list \<Rightarrow> error + 'rd"
  gz_ReadAll :: "'rd \<Rightarrow> error + byte list"

section \<open>The operations of the package\<close>

text \<open>The nested loops of \<open>AvailableBackends\<close>: the inner one over the allow-list.\<close>

fun append_allowed :: "string \<Rightarrow> string list \<Rightarrow> string list \<Rightarrow> string list" where
  "append_allowed avail [] b = b"
| "append_allowed avail (allowed # rest) b =
     append_allowed avail rest (if avail = allowed then b @ [allowed] else b)"

fun intersect_loop :: "string list \<Rightarrow> string list \<Rightarrow> string list" where
  "intersect_loop [] b = b"
| "intersect_loop (avail # rest) b =
     intersect_loop rest (append_allowed avail AllowedBackends b)"

definition AvailableBackends :: "world \<Rightarrow> string list" where
  "AvailableBackends w = intersect_loop (keyring_AvailableBackends w) []"

text \<open>The loop with \<open>break\<close> that \<open>IsBackendAvailable\<close> and \<open>ValidateBackend\<close> share.\<close>

fun found_in :: "string list \<Rightarrow> string \<Rightarrow> bool" where
  "found_in [] backend = False"
| "found_in (x # xs) backend = (if x = backend then True else found_in xs backend)"

definition IsBackendAvailable :: "world \<Rightarrow> string \<Rightarrow> bool" where
  "IsBackendAvailable w backend =
     (if backend = [] then False else found_in (AvailableBackends w) backend)"

definition ValidateBackend :: "world \<Rightarrow> string \<Rightarrow> error option" where
  "ValidateBackend w backend =
     (if backend = [] then Some ErrKeyringInvalid
      else if \<not> found_in AllowedBackends backend then Some ErrKeyringInvalid
      else if \<not> IsBackendAvailable w backend then Some ErrKeyringUnavailable
      else None)"

definition compressConfig :: "('wr, 'rd) gzip \<Rightarrow> byte list \<Rightarrow> error + byte list" where
  "compressConfig gz creds =
     (case gz_Write gz creds of
        Inl err \<Rightarrow> Inl err
      | Inr wr \<Rightarrow>
          (case gz_Close gz wr of
             Inl err \<Rightarrow> Inl err
           | Inr b \<Rightarrow> Inr b))"

definition decompressConfig :: "('wr, 'rd) gzip \<Rightarrow> byte list \<Rightarrow> error + byte list" where
  "decompressConfig gz creds =
     (case gz_NewReader gz creds of
        Inl err \<Rightarrow> Inl err
      | Inr gzreader \<Rightarrow>
          (case gz_ReadAll gz gzreader of
             Inl err \<Rightarrow> Inl err
           | Inr output \<Rightarrow> Inr output))"

text \<open>The item that \<open>UpsertConfigToKeyring\<close> hands to the store for the bytes \<open>d\<close>.\<close>

definition stored_item :: "byte list \<Rightarrow> item" where
  "stored_item d =
     \<lparr> Key = ItemKey, Data = d, Label = ItemKey, Description = KindInternetPassword \<rparr>"

definition too_large_error :: "nat \<Rightarrow> error" where
  "too_large_error n =
     Errorf (''credentials are too large for Windows Credential Manager: '' @ format_d n
             @ '' bytes (max '' @ format_d MaxWindowsByteSize @ '')'')"

definition UpsertConfigToKeyring ::
  "('wr, 'rd) gzip \<Rightarrow> world \<Rightarrow> string \<Rightarrow> byte list \<Rightarrow> error option \<times> world" where
  "UpsertConfigToKeyring gz w backend creds =
     (case ValidateBackend w backend of
        Some err \<Rightarrow> (Some err, w)
      | None \<Rightarrow>
          (case keyring_Open w (getKeyringConfig backend) of
             (Inl err, w1) \<Rightarrow> (Some err, w1)
           | (Inr ring, w1) \<Rightarrow>
               (case compressConfig gz creds of
                  Inl err \<Rightarrow> (Some err, w1)
                | Inr compressed \<Rightarrow>
                    if length compressed > MaxWindowsByteSize \<and> backend = WinCredBackend
                    then (Some (too_large_error (length compressed)), w1)
                    else ring_Set w1 ring (stored_item compressed))))"

definition permission_hint :: "error \<Rightarrow> error" where
  "permission_hint err =
     Errorf (Error err @ [CHR 0x0A]
       @ ''This application may not have permission to delete from the Keychain. ''
       @ ''Please check the permissions in the Keychain and try again'')"

definition RemoveConfigFromKeyring :: "world \<Rightarrow> string \<Rightarrow> error option \<times> world" where
  "RemoveConfigFromKeyring w backend =
     (case ValidateBackend w backend of
        Some err \<Rightarrow> (Some err, w)
      | None \<Rightarrow>
          (case keyring_Open w (getKeyringConfig backend) of
             (Inl err, w1) \<Rightarrow> (Some err, w1)
           | (Inr ring, w1) \<Rightarrow>
               (case ring_Remove w1 ring ItemKey of
                  (None, w2) \<Rightarrow> (None, w2)
                | (Some err, w2) \<Rightarrow>
                    if err = ErrKeyNotFound then (None, w2)
                    else if strings_Contains (Error err) ''Keychain Error. (-25244)''
                    then (Some (permission_hint err), w2)
                    else (Some err, w2))))"

definition GetConfigFromKeyring ::
  "('wr, 'rd) gzip \<Rightarrow> world \<Rightarrow> string \<Rightarrow> (error + byte list) \<times> world" where
  "GetConfigFromKeyring gz w backend =
     (case ValidateBackend w backend of
        Some err \<Rightarrow> (Inl err, w)
      | None \<Rightarrow>
          (case keyring_Open w (getKeyringConfig backend) of
             (Inl err, w1) \<Rightarrow> (Inl err, w1)
           | (Inr ring, w1) \<Rightarrow>
               (case ring_Get w1 ring ItemKey of
                  (r, w2) \<Rightarrow>
                    (case (case r of
                             Inl err \<Rightarrow> if err \<noteq> ErrKeyNotFound then Inl err else Inr []
                           | Inr i \<Rightarrow> Inr (Data i)) of
                       Inl err \<Rightarrow> (Inl err, w2)
                     | Inr credentials \<Rightarrow>
                         if length credentials = 0 then (Inr credentials, w2)
                         else
                           (case decompressConfig gz credentials of
                              Inl err \<Rightarrow> (Inl err, w2)
                            | Inr creds \<Rightarrow> (Inr creds, w2))))))"

section \<open>A model of the gzip format\<close>

text \<open>
  Modelled from the spec: the Go packages \<open>compress/gzip\<close>, \<open>compress/flate\<close>,
  \<open>hash/crc32\<close> and \<open>io\<close> are not part of the repository. The spec describes the
  codec as deflate-style compression in gzip framing, read back to the end of the stream,
  failing on malformed framing or a truncated stream. The model below is the gzip member
  format: a ten-byte header, a deflate stream, and a trailer holding the CRC-32 and the
  length modulo \<open>2 ^ 32\<close> of the uncompressed bytes, both little-endian. The model writer
  emits the deflate stream as stored blocks of at most 65535 bytes followed by an empty
  final stored block. The model reader parses the header with its optional fields, reads
  stored blocks itself and hands a block of compressed type to a parameter \<open>huff\<close>, checks
  the trailer, and goes on to a following member as long as bytes remain.
\<close>

type_synonym u32 = "32 word"

definition io_EOF :: error where
  "io_EOF = LibError ''EOF''"

definition io_ErrUnexpectedEOF :: error where
  "io_ErrUnexpectedEOF = LibError ''unexpected EOF''"

definition gzip_ErrHeader :: error where
  "gzip_ErrHeader = LibError ''gzip: invalid header''"

definition gzip_ErrChecksum :: error where
  "gzip_ErrChecksum = LibError ''gzip: invalid checksum''"

definition flate_CorruptInputError :: error where
  "flate_CorruptInputError = LibError ''flate: corrupt input''"

definition noEOF :: "error \<Rightarrow> error" where
  "noEOF e = (if e = io_EOF then io_ErrUnexpectedEOF else e)"

text \<open>CRC-32 with the IEEE polynomial, reflected, one bit at a time.\<close>

fun crc_rounds :: "nat \<Rightarrow> u32 \<Rightarrow> u32" where
  "crc_rounds 0 c = c"
| "crc_rounds (Suc k) c =
     crc_rounds k (if bit c 0 then drop_bit 1 c XOR 0xEDB88320 else drop_bit 1 c)"

definition crc_byte :: "u32 \<Rightarrow> byte \<Rightarrow> u32" where
  "crc_byte c b = crc_rounds 8 (c XOR ucast b)"

definition crc32_Update :: "u32 \<Rightarrow> byte list \<Rightarrow> u32" where
  "crc32_Update crc p = NOT (foldl crc_byte (NOT crc) p)"

text \<open>Little-endian integers.\<close>

definition PutUint16 :: "nat \<Rightarrow> byte list" where
  "PutUint16 n = [of_nat (n mod 256), of_nat (n div 256 mod 256)]"

definition Uint16 :: "byte list \<Rightarrow> nat" where
  "Uint16 b = unat (b ! 0) + 256 * unat (b ! 1)"

definition PutUint32 :: "u32 \<Rightarrow> byte list" where
  "PutUint32 v = [ucast v, ucast (drop_bit 8 v), ucast (drop_bit 16 v), ucast (drop_bit 24 v)]"

definition Uint32 :: "byte list \<Rightarrow> u32" where
  "Uint32 b =
     ucast (b ! 0) OR push_bit 8 (ucast (b ! 1)) OR push_bit 16 (ucast (b ! 2))
       OR push_bit 24 (ucast (b ! 3))"

text \<open>
  \<open>io.ReadFull\<close> for \<open>n\<close> bytes on the bytes that remain: the bytes read and the bytes
  left, \<open>EOF\<close> when nothing was there to read, \<open>unexpected EOF\<close> when too little was.
\<close>

definition ReadFull :: "nat \<Rightarrow> byte list \<Rightarrow> error + (byte list \<times> byte list)" where
  "ReadFull n r =
     (if n \<le> length r then Inr (take n r, drop n r)
      else if r = [] then Inl io_EOF
      else Inl io_ErrUnexpectedEOF)"

subsection \<open>The writer\<close>

definition maxStoreBlockSize :: nat where
  "maxStoreBlockSize = 65535"

function stored_blocks :: "byte list \<Rightarrow> byte list" where
  "stored_blocks p =
     (if p = [] then []
      else let n = min (length p) maxStoreBlockSize in
        [0] @ PutUint16 n @ PutUint16 (65535 - n) @ take n p @ stored_blocks (drop n p))"
  by pat_completeness auto
termination
  by (relation "measure length") (auto simp: maxStoreBlockSize_def)

definition final_stored_block :: "byte list" where
  "final_stored_block = [1] @ PutUint16 0 @ PutUint16 65535"

definition gzip_header :: "byte list" where
  "gzip_header = [0x1f, 0x8b, 8, 0, 0, 0, 0, 0, 0, 255]"

record gzip_Writer =
  wr_out :: "byte list"
  wr_pending :: "byte list"
  wr_digest :: u32
  wr_size :: u32

definition Writer_Write :: "byte list \<Rightarrow> error + gzip_Writer" where
  "Writer_Write p =
     Inr \<lparr> wr_out = gzip_header, wr_pending = p,
           wr_digest = crc32_Update 0 p, wr_size = of_nat (length p) \<rparr>"

definition Writer_Close :: "gzip_Writer \<Rightarrow> error + byte list" where
  "Writer_Close z =
     Inr (wr_out z @ stored_blocks (wr_pending z) @ final_stored_block
          @ PutUint32 (wr_digest z) @ PutUint32 (wr_size z))"

subsection \<open>The reader\<close>

definition flagHdrCrc :: byte where "flagHdrCrc = 2"
definition flagExtra :: byte where "flagExtra = 4"
definition flagName :: byte where "flagName = 8"
definition flagComment :: byte where "flagComment = 16"

text \<open>
  A NUL-terminated header string of at most 512 bytes, terminator included: the bytes
  read (with the terminator) and the bytes left.
\<close>

fun readString :: "byte list \<Rightarrow> byte list \<Rightarrow> error + (byte list \<times> byte list)" where
  "readString acc r =
     (if 512 \<le> length acc then Inl gzip_ErrHeader
      else
        (case r of
           [] \<Rightarrow> Inl io_EOF
         | b # bs \<Rightarrow> if b = 0 then Inr (acc @ [b], bs) else readString (acc @ [b]) bs))"

definition header_extra :: "byte \<Rightarrow> u32 \<times> byte list \<Rightarrow> error + (u32 \<times> byte list)" where
  "header_extra flg s =
     (case s of (digest, r) \<Rightarrow>
      if flg AND flagExtra = 0 then Inr (digest, r)
      else
        (case ReadFull 2 r of
           Inl e \<Rightarrow> Inl (noEOF e)
         | Inr (lb, r1) \<Rightarrow>
             (case ReadFull (Uint16 lb) r1 of
                Inl e \<Rightarrow> Inl (noEOF e)
              | Inr (data, r2) \<Rightarrow>
                  Inr (crc32_Update (crc32_Update digest lb) data, r2))))"

definition header_string ::
  "byte \<Rightarrow> byte \<Rightarrow> u32 \<times> byte list \<Rightarrow> error + (u32 \<times> byte list)" where
  "header_string flg flag s =
     (case s of (digest, r) \<Rightarrow>
      if flg AND flag = 0 then Inr (digest, r)
      else
        (case readString [] r of
           Inl e \<Rightarrow> Inl (noEOF e)
         | Inr (str, r1) \<Rightarrow> Inr (crc32_Update digest str, r1)))"

definition header_crc :: "byte \<Rightarrow> u32 \<times> byte list \<Rightarrow> error + byte list" where
  "header_crc flg s =
     (case s of (digest, r) \<Rightarrow>
      if flg AND flagHdrCrc = 0 then Inr r
      else
        (case ReadFull 2 r of
           Inl e \<Rightarrow> Inl (noEOF e)
         | Inr (cb, r1) \<Rightarrow>
             if Uint16 cb \<noteq> unat digest mod 65536 then Inl gzip_ErrHeader else Inr r1))"

text \<open>The header of one member: the bytes that follow it, or the error.\<close>

definition readHeader :: "byte list \<Rightarrow> error + byte list" where
  "readHeader r =
     (case ReadFull 10 r of
        Inl e \<Rightarrow> Inl e
      | Inr (buf, r0) \<Rightarrow>
          if buf ! 0 \<noteq> 0x1f \<or> buf ! 1 \<noteq> 0x8b \<or> buf ! 2 \<noteq> 8 then Inl gzip_ErrHeader
          else
            (case header_extra (buf ! 3) (crc32_Update 0 buf, r0) of
               Inl e \<Rightarrow> Inl e
             | Inr s1 \<Rightarrow>
                 (case header_string (buf ! 3) flagName s1 of
                    Inl e \<Rightarrow> Inl e
                  | Inr s2 \<Rightarrow>
                      (case header_string (buf ! 3) flagComment s2 of
                         Inl e \<Rightarrow> Inl e
                       | Inr s3 \<Rightarrow> header_crc (buf ! 3) s3))))"

text \<open>
  The deflate stream is read through a bit reader: the bits of the last byte fetched that
  are still unread, least significant first, and the bytes not yet fetched.
\<close>

record bitreader =
  br_bits :: "bool list"
  br_rest :: "byte list"

definition bits_of_byte :: "byte \<Rightarrow> bool list" where
  "bits_of_byte b = map (bit b) [0..<8]"

definition bits_left :: "bitreader \<Rightarrow> nat" where
  "bits_left f = length (br_bits f) + 8 * length (br_rest f)"

definition read_bit :: "bitreader \<Rightarrow> error + (bool \<times> bitreader)" where
  "read_bit f =
     (case br_bits f of
        b # bs \<Rightarrow> Inr (b, f\<lparr>br_bits := bs\<rparr>)
      | [] \<Rightarrow>
          (case br_rest f of
             [] \<Rightarrow> Inl io_ErrUnexpectedEOF
           | x # xs \<Rightarrow>
               Inr (hd (bits_of_byte x), \<lparr>br_bits = tl (bits_of_byte x), br_rest = xs\<rparr>)))"

text \<open>The three header bits of a block: the final flag and the block type.\<close>

definition block_header :: "bitreader \<Rightarrow> error + (bool \<times> nat \<times> bitreader)" where
  "block_header f =
     (case read_bit f of
        Inl e \<Rightarrow> Inl e
      | Inr (final, f1) \<Rightarrow>
          (case read_bit f1 of
             Inl e \<Rightarrow> Inl e
           | Inr (t0, f2) \<Rightarrow>
               (case read_bit f2 of
                  Inl e \<Rightarrow> Inl e
                | Inr (t1, f3) \<Rightarrow>
                    Inr (final, (if t0 then 1 else 0) + (if t1 then 2 else 0), f3))))"

text \<open>
  A stored block: the unread bits of the current byte are dropped, then come the length,
  its complement and the bytes.
\<close>

definition dataBlock :: "bitreader \<Rightarrow> error + (byte list \<times> bitreader)" where
  "dataBlock f =
     (case ReadFull 4 (br_rest f) of
        Inl e \<Rightarrow> Inl (noEOF e)
      | Inr (buf, r1) \<Rightarrow>
          if Uint16 (drop 2 buf) \<noteq> 65535 - Uint16 (take 2 buf)
          then Inl flate_CorruptInputError
          else
            (case ReadFull (Uint16 (take 2 buf)) r1 of
               Inl e \<Rightarrow> Inl (noEOF e)
             | Inr (data, r2) \<Rightarrow> Inr (data, \<lparr>br_bits = [], br_rest = r2\<rparr>)))"

type_synonym huffman_block =
  "nat \<Rightarrow> byte list \<Rightarrow> bitreader \<Rightarrow> error + (byte list \<times> bitreader)"

text \<open>
  The blocks of one deflate stream, with the output so far. A block of type 1 or 2 is
  decoded by \<open>huff\<close>, which is given the type, the output so far and the reader and answers
  with the bytes of the block and the reader after it. The loop goes on only when the block
  has consumed input, which every block does with its header bits.
\<close>

function inflate :: "huffman_block \<Rightarrow> byte list \<Rightarrow> bitreader \<Rightarrow> error + (byte list \<times> byte list)" where
  "inflate huff out f =
     (case block_header f of
        Inl e \<Rightarrow> Inl e
      | Inr (final, typ, f1) \<Rightarrow>
          (case (if typ = 0 then dataBlock f1
                 else if typ = 3 then Inl flate_CorruptInputError
                 else huff typ out f1) of
             Inl e \<Rightarrow> Inl e
           | Inr (data, f2) \<Rightarrow>
               if final then Inr (out @ data, br_rest f2)
               else if bits_left f2 < bits_left f then inflate huff (out @ data) f2
               else Inl flate_CorruptInputError))"
  by pat_completeness auto
termination
  by (relation "measure (\<lambda>(huff, out, f). bits_left f)") auto

text \<open>One member after its header: the deflate stream and the trailer.\<close>

definition read_member :: "huffman_block \<Rightarrow> byte list \<Rightarrow> error + (byte list \<times> byte list)" where
  "read_member huff r =
     (case inflate huff [] \<lparr>br_bits = [], br_rest = r\<rparr> of
        Inl e \<Rightarrow> Inl e
      | Inr (out, r1) \<Rightarrow>
          (case ReadFull 8 r1 of
             Inl e \<Rightarrow> Inl (noEOF e)
           | Inr (buf, r2) \<Rightarrow>
               if Uint32 (take 4 buf) \<noteq> crc32_Update 0 out
                  \<or> Uint32 (drop 4 buf) \<noteq> of_nat (length out)
               then Inl gzip_ErrChecksum
               else Inr (out, r2)))"

text \<open>
  Reading to the end: the members one after the other. After a member, no byte left is
  the end of the stream; otherwise the header of the next member is read.
\<close>

function read_members :: "huffman_block \<Rightarrow> byte list \<Rightarrow> byte list \<Rightarrow> error + byte list" where
  "read_members huff acc r =
     (case read_member huff r of
        Inl e \<Rightarrow> Inl e
      | Inr (out, r1) \<Rightarrow>
          (case readHeader r1 of
             Inl e \<Rightarrow> if e = io_EOF then Inr (acc @ out) else Inl e
           | Inr r2 \<Rightarrow>
               if length r2 < length r then read_members huff (acc @ out) r2
               else Inl gzip_ErrHeader))"
  by pat_completeness auto
termination
  by (relation "measure (\<lambda>(huff, acc, r). length r)") auto

definition NewReader :: "byte list \<Rightarrow> error + byte list" where
  "NewReader r = readHeader r"

definition ReadAll :: "huffman_block \<Rightarrow> byte list \<Rightarrow> error + byte list" where
  "ReadAll huff z = read_members huff [] z"

text \<open>
  Modelled from the spec: package \<open>compress/gzip\<close> as the writer and the reader of the
  format model above.
\<close>

definition gzip_model :: "huffman_block \<Rightarrow> (gzip_Writer, byte list) gzip" where
  "gzip_model huff =
     \<lparr> gz_Write = Writer_Write, gz_Close = Writer_Close,
       gz_NewReader = NewReader, gz_ReadAll = ReadAll huff \<rparr>"

text \<open>The bytes the model writer produces for the input \<open>p\<close>.\<close>

definition gzip_bytes :: "byte list \<Rightarrow> byte list" where
  "gzip_bytes p =
     gzip_header @ stored_blocks p @ final_stored_block
       @ PutUint32 (crc32_Update 0 p) @ PutUint32 (of_nat (length p))"

text \<open>A reader of the model that rejects every block of compressed type.\<close>

definition reject_compressed :: huffman_block where
  "reject_compressed typ out f = Inl flate_CorruptInputError"

section \<open>Example states\<close>

text \<open>
  A state of the collaborator in which the operating system reports the given backends,
  no operation faults, no backend holds an item and nothing has been called yet.
\<close>

definition fresh_world :: "string list \<Rightarrow> world" where
  "fresh_world bs =
     \<lparr> os_backends = bs, open_fault = (\<lambda>b. None), get_fault = (\<lambda>b. None),
       set_fault = (\<lambda>b. None), remove_fault = (\<lambda>b. None),
       items = (\<lambda>b. Map.empty), calls = [] \<rparr>"

text \<open>The fresh state of the backend \<open>b\<close> after an item with the data \<open>d\<close> was put there.\<close>

definition world_with_item :: "string \<Rightarrow> byte list \<Rightarrow> world" where
  "world_with_item b d =
     (fresh_world [b])\<lparr>items := (\<lambda>b'. if b' = b then [ItemKey \<mapsto> stored_item d] else Map.empty)\<rparr>"

text \<open>Thirteen bytes of JSON text, which are no gzip stream.\<close>

definition plain_bytes :: "byte list" where
  "plain_bytes = [0x7B, 0x22, 0x74, 0x6F, 0x6B, 0x65, 0x6E, 0x22, 0x3A, 0x22, 0x78, 0x22, 0x7D]"

declare stored_blocks.simps [simp del] inflate.simps [simp del] read_members.simps [simp del]
  format_d.simps [simp del]

section \<open>Backend validation\<close>

lemma found_in_set: "found_in xs b = (b \<in> set xs)"
  by (induction xs) auto

lemma append_allowed_filter:
  "append_allowed avail as b = b @ filter (\<lambda>a. avail = a) as"
  by (induction as arbitrary: b) auto

lemma intersect_loop_filter:
  "intersect_loop os b = b @ filter (\<lambda>a. a \<in> set AllowedBackends) os"
proof (induction os arbitrary: b)
  case Nil
  show ?case by simp
next
  case (Cons avail rest)
  have "filter (\<lambda>a. avail = a) AllowedBackends
          = (if avail \<in> set AllowedBackends then [avail] else [])"
    by (auto simp: AllowedBackends_def WinCredBackend_def KeychainBackend_def
        SecretServiceBackend_def PassBackend_def)
  then show ?case
    by (simp add: Cons.IH append_allowed_filter)
qed

lemma AvailableBackends_filter:
  "AvailableBackends w = filter (\<lambda>a. a \<in> set AllowedBackends) (os_backends w)"
  by (simp add: AvailableBackends_def keyring_AvailableBackends_def intersect_loop_filter)

lemma empty_not_allowed: "[] \<notin> set AllowedBackends"
  by (simp add: AllowedBackends_def WinCredBackend_def KeychainBackend_def
      SecretServiceBackend_def PassBackend_def)

lemma ValidateBackend_None_iff:
  "ValidateBackend w b = None \<longleftrightarrow> b \<in> set AllowedBackends \<and> b \<in> set (os_backends w)"
  using empty_not_allowed
  by (auto simp: ValidateBackend_def IsBackendAvailable_def found_in_set
      AvailableBackends_filter)

lemma allowed_set:
  "set AllowedBackends = {''wincred'', ''keychain'', ''secret-service'', ''pass''}"
  by (simp add: AllowedBackends_def WinCredBackend_def KeychainBackend_def
      SecretServiceBackend_def PassBackend_def)

text \<open>
  Claim C3. For every string \<open>b\<close>: when \<open>b\<close> is empty or not one of \<open>wincred\<close>,
  \<open>keychain\<close>, \<open>secret-service\<close>, \<open>pass\<close>, \<open>ValidateBackend\<close> returns
  \<open>ErrKeyringInvalid\<close>; when it is one of them but the operating system does not report
  it as available, it returns \<open>ErrKeyringUnavailable\<close>; otherwise it returns no error.
\<close>

theorem ValidateBackend_outcome:
  "ValidateBackend w b =
     (if b = [] \<or> b \<notin> {''wincred'', ''keychain'', ''secret-service'', ''pass''}
      then Some ErrKeyringInvalid
      else if b \<notin> set (keyring_AvailableBackends w) then Some ErrKeyringUnavailable
      else None)"
  unfolding allowed_set [symmetric]
  by (simp add: ValidateBackend_def IsBackendAvailable_def found_in_set AvailableBackends_filter
      keyring_AvailableBackends_def)

theorem ValidateBackend_outcome_witness:
  "ValidateBackend (fresh_world [''pass'', ''file'']) ''keychain'' = Some ErrKeyringUnavailable
   \<and> ValidateBackend (fresh_world [''pass'', ''file'']) ''file'' = Some ErrKeyringInvalid
   \<and> ValidateBackend (fresh_world [''pass'', ''file'']) [] = Some ErrKeyringInvalid
   \<and> ValidateBackend (fresh_world [''pass'', ''file'']) ''pass'' = None"
  using ValidateBackend_outcome [of "fresh_world [''pass'', ''file'']" "''keychain''"]
    ValidateBackend_outcome [of "fresh_world [''pass'', ''file'']" "''file''"]
    ValidateBackend_outcome [of "fresh_world [''pass'', ''file'']" "[]"]
    ValidateBackend_outcome [of "fresh_world [''pass'', ''file'']" "''pass''"]
  by (simp add: fresh_world_def keyring_AvailableBackends_def)

section \<open>The available backends\<close>

text \<open>
  Claim C5. The keyring library reports each backend at most once: its report is a set of
  backends in a fixed order. For every such report, \<open>AvailableBackends\<close> returns the
  reported identifiers that are in the allow-list, in the reported order; the result
  holds no identifier outside the allow-list, and it has no duplicates. The first two
  parts hold of any sequence; the third is where the report being free of duplicates is
  used.
\<close>

theorem AvailableBackends_intersection:
  "AvailableBackends w
     = filter (\<lambda>a. a \<in> set AllowedBackends) (keyring_AvailableBackends w)
   \<and> set (AvailableBackends w) \<subseteq> set AllowedBackends
   \<and> (distinct (keyring_AvailableBackends w) \<longrightarrow> distinct (AvailableBackends w))"
  by (auto simp: AvailableBackends_filter keyring_AvailableBackends_def)

theorem AvailableBackends_intersection_witness:
  "distinct (keyring_AvailableBackends (fresh_world [''pass'', ''file'', ''keychain'']))
   \<and> AvailableBackends (fresh_world [''pass'', ''file'', ''keychain''])
       = [''pass'', ''keychain'']
   \<and> distinct (AvailableBackends (fresh_world [''pass'', ''file'', ''keychain'']))"
  using AvailableBackends_intersection [of "fresh_world [''pass'', ''file'', ''keychain'']"]
  by (simp add: fresh_world_def keyring_AvailableBackends_def allowed_set)

section \<open>A backend that fails validation\<close>

text \<open>
  Claim C8. For every backend string that fails validation, each of
  \<open>UpsertConfigToKeyring\<close>, \<open>GetConfigFromKeyring\<close> and \<open>RemoveConfigFromKeyring\<close>
  returns the validation error itself and leaves the collaborator's state as it was: no
  open, get, set or remove is added to the trace and no item changes.
\<close>

theorem invalid_backend_no_store_operation:
  assumes "ValidateBackend w b = Some e"
  shows "UpsertConfigToKeyring gz w b x = (Some e, w)
       \<and> GetConfigFromKeyring gz w b = (Inl e, w)
       \<and> RemoveConfigFromKeyring w b = (Some e, w)"
  using assms
  by (simp add: UpsertConfigToKeyring_def GetConfigFromKeyring_def RemoveConfigFromKeyring_def)

theorem invalid_backend_no_store_operation_witness:
  "ValidateBackend (fresh_world [''pass'', ''file'']) ''file'' = Some ErrKeyringInvalid
   \<and> UpsertConfigToKeyring (gzip_model reject_compressed) (fresh_world [''pass'', ''file''])
         ''file'' [1, 2, 3]
        = (Some ErrKeyringInvalid, fresh_world [''pass'', ''file''])
   \<and> GetConfigFromKeyring (gzip_model reject_compressed) (fresh_world [''pass'', ''file''])
         ''file''
        = (Inl ErrKeyringInvalid, fresh_world [''pass'', ''file''])
   \<and> RemoveConfigFromKeyring (fresh_world [''pass'', ''file'']) ''file''
        = (Some ErrKeyringInvalid, fresh_world [''pass'', ''file''])"
proof -
  have v: "ValidateBackend (fresh_world [''pass'', ''file'']) ''file'' = Some ErrKeyringInvalid"
    by (simp add: ValidateBackend_def found_in_set allowed_set)
  show ?thesis
    using v invalid_backend_no_store_operation [OF v] by simp
qed

section \<open>The store answers\<close>

lemma keyring_Open_ok:
  "open_fault w b = None \<Longrightarrow>
   keyring_Open w (getKeyringConfig b) = (Inr b, logged w (CallOpen (getKeyringConfig b)))"
  by (simp add: keyring_Open_def getKeyringConfig_def)

lemma logged_fields [simp]:
  "os_backends (logged w c) = os_backends w"
  "open_fault (logged w c) = open_fault w"
  "get_fault (logged w c) = get_fault w"
  "set_fault (logged w c) = set_fault w"
  "remove_fault (logged w c) = remove_fault w"
  "items (logged w c) = items w"
  "calls (logged w c) = calls w @ [c]"
  by (simp_all add: logged_def)

text \<open>
  Claim C6. For every valid and available backend whose store opens and answers the get,
  and holds no item under the fixed key, \<open>GetConfigFromKeyring\<close> returns a zero-length
  result and no error: the store's \<open>ErrKeyNotFound\<close> is turned into an empty success. The
  collaborator has seen one open and one get.
\<close>

theorem get_not_found_is_empty:
  assumes "ValidateBackend w b = None" and "open_fault w b = None"
    and "get_fault w b = None" and "items w b ItemKey = None"
  shows "GetConfigFromKeyring gz w b
     = (Inr [], logged (logged w (CallOpen (getKeyringConfig b))) (CallGet b ItemKey))"
  using assms
  by (simp add: GetConfigFromKeyring_def keyring_Open_ok ring_Get_def)

theorem get_not_found_is_empty_witness:
  "ValidateBackend (fresh_world [''pass'']) ''pass'' = None
   \<and> items (fresh_world [''pass'']) ''pass'' ItemKey = None
   \<and> fst (GetConfigFromKeyring (gzip_model reject_compressed) (fresh_world [''pass'']) ''pass'')
       = Inr []"
proof -
  have v: "ValidateBackend (fresh_world [''pass'']) ''pass'' = None"
    by (simp add: ValidateBackend_None_iff allowed_set fresh_world_def)
  have f: "open_fault (fresh_world [''pass'']) ''pass'' = None"
    "get_fault (fresh_world [''pass'']) ''pass'' = None"
    "items (fresh_world [''pass'']) ''pass'' ItemKey = None"
    by (simp_all add: fresh_world_def)
  show ?thesis
    using v f(3) get_not_found_is_empty [OF v f, where gz = "gzip_model reject_compressed"]
    by simp
qed

text \<open>
  Claim C7. For every valid and available backend whose store opens and answers the
  remove, and holds no item under the fixed key, \<open>RemoveConfigFromKeyring\<close> returns no
  error: the store's \<open>ErrKeyNotFound\<close> is turned into success, and the items are as
  before.
\<close>

theorem remove_not_found_is_success:
  assumes "ValidateBackend w b = None" and "open_fault w b = None"
    and "remove_fault w b = None" and "items w b ItemKey = None"
  shows "RemoveConfigFromKeyring w b
     = (None, logged (logged w (CallOpen (getKeyringConfig b))) (CallRemove b ItemKey))"
  using assms
  by (simp add: RemoveConfigFromKeyring_def keyring_Open_ok ring_Remove_def)

theorem remove_not_found_is_success_witness:
  "ValidateBackend (fresh_world [''keychain'']) ''keychain'' = None
   \<and> items (fresh_world [''keychain'']) ''keychain'' ItemKey = None
   \<and> fst (RemoveConfigFromKeyring (fresh_world [''keychain'']) ''keychain'') = None"
proof -
  have v: "ValidateBackend (fresh_world [''keychain'']) ''keychain'' = None"
    by (simp add: ValidateBackend_None_iff allowed_set fresh_world_def)
  have f: "open_fault (fresh_world [''keychain'']) ''keychain'' = None"
    "remove_fault (fresh_world [''keychain'']) ''keychain'' = None"
    "items (fresh_world [''keychain'']) ''keychain'' ItemKey = None"
    by (simp_all add: fresh_world_def)
  show ?thesis
    using v f(3) remove_not_found_is_success [OF v f] by simp
qed

text \<open>
  Claim C9. For every valid and available backend whose store opens and answers the get
  with an item of non-empty data that the gzip reader rejects, when it is created or when
  it is read to the end, \<open>GetConfigFromKeyring\<close> returns that error: it is neither
  dropped nor turned into an empty result.
\<close>

theorem get_corrupt_is_error:
  assumes "ValidateBackend w b = None" and "open_fault w b = None"
    and "get_fault w b = None" and "items w b ItemKey = Some i" and "Data i \<noteq> []"
    and "gz_NewReader gz (Data i) = Inl e
         \<or> (\<exists>rd. gz_NewReader gz (Data i) = Inr rd \<and> gz_ReadAll gz rd = Inl e)"
  shows "GetConfigFromKeyring gz w b
     = (Inl e, logged (logged w (CallOpen (getKeyringConfig b))) (CallGet b ItemKey))"
proof -
  have "decompressConfig gz (Data i) = Inl e"
    using assms(6) by (auto simp: decompressConfig_def)
  then show ?thesis
    using assms(1-5)
    by (simp add: GetConfigFromKeyring_def keyring_Open_ok ring_Get_def)
qed

theorem get_corrupt_is_error_witness:
  "ValidateBackend (world_with_item ''pass'' plain_bytes) ''pass'' = None
   \<and> items (world_with_item ''pass'' plain_bytes) ''pass'' ItemKey
       = Some (stored_item plain_bytes)
   \<and> gz_NewReader (gzip_model reject_compressed) plain_bytes = Inl gzip_ErrHeader
   \<and> fst (GetConfigFromKeyring (gzip_model reject_compressed)
            (world_with_item ''pass'' plain_bytes) ''pass'') = Inl gzip_ErrHeader"
proof -
  let ?w = "world_with_item ''pass'' plain_bytes"
  have v: "ValidateBackend ?w ''pass'' = None"
    by (simp add: ValidateBackend_None_iff allowed_set fresh_world_def world_with_item_def)
  have f: "open_fault ?w ''pass'' = None" "get_fault ?w ''pass'' = None"
    "items ?w ''pass'' ItemKey = Some (stored_item plain_bytes)"
    "Data (stored_item plain_bytes) \<noteq> []"
    by (simp_all add: fresh_world_def world_with_item_def stored_item_def plain_bytes_def)
  have r: "gz_NewReader (gzip_model reject_compressed) plain_bytes = Inl gzip_ErrHeader"
    by (simp add: gzip_model_def NewReader_def readHeader_def ReadFull_def plain_bytes_def)
  have g: "gz_NewReader (gzip_model reject_compressed) (Data (stored_item plain_bytes))
            = Inl gzip_ErrHeader
         \<or> (\<exists>rd. gz_NewReader (gzip_model reject_compressed)
                    (Data (stored_item plain_bytes)) = Inr rd
               \<and> gz_ReadAll (gzip_model reject_compressed) rd = Inl gzip_ErrHeader)"
    using r by (simp add: stored_item_def)
  show ?thesis
    using v f(3) r get_corrupt_is_error [OF v f g] by simp
qed

section \<open>The gzip model: the reader inverts the writer\<close>

lemma stored_blocks_Nil: "stored_blocks [] = []"
  by (subst stored_blocks.simps) simp

lemma Uint32_PutUint32: "Uint32 (PutUint32 v) = v"
proof (rule bit_word_eqI)
  fix n :: nat
  assume "n < LENGTH(32)"
  then consider "n < 8" | "8 \<le> n" "n < 16" | "16 \<le> n" "n < 24" | "24 \<le> n" "n < 32"
    by fastforce
  then show "bit (Uint32 (PutUint32 v)) n = bit v n"
    by cases (auto simp add: Uint32_def PutUint32_def bit_simps)
qed

lemma Uint16_PutUint16: "n < 65536 \<Longrightarrow> Uint16 (PutUint16 n @ r) = n"
  by (simp add: Uint16_def PutUint16_def unat_of_nat)

lemma readHeader_gzip_header: "readHeader (gzip_header @ r) = Inr r"
  by (simp add: readHeader_def gzip_header_def ReadFull_def header_extra_def header_string_def
      header_crc_def flagExtra_def flagName_def flagComment_def flagHdrCrc_def)

lemma readHeader_Nil: "readHeader [] = Inl io_EOF"
  by (simp add: readHeader_def ReadFull_def)

lemma block_header_0:
  "block_header \<lparr>br_bits = [], br_rest = 0 # xs\<rparr>
     = Inr (False, 0, \<lparr>br_bits = replicate 5 False, br_rest = xs\<rparr>)"
  by (simp add: block_header_def read_bit_def bits_of_byte_def upt_rec numeral_eq_Suc)

lemma block_header_1:
  "block_header \<lparr>br_bits = [], br_rest = 1 # xs\<rparr>
     = Inr (True, 0, \<lparr>br_bits = replicate 5 False, br_rest = xs\<rparr>)"
  by (simp add: block_header_def read_bit_def bits_of_byte_def upt_rec numeral_eq_Suc bit_1_iff)

lemma dataBlock_stored:
  assumes "n = length d" "n < 65536"
  shows "dataBlock \<lparr>br_bits = bs, br_rest = PutUint16 n @ PutUint16 (65535 - n) @ d @ r\<rparr>
     = Inr (d, \<lparr>br_bits = [], br_rest = r\<rparr>)"
proof -
  have l: "length (PutUint16 k) = 2" for k
    by (simp add: PutUint16_def)
  have lo: "Uint16 (PutUint16 n) = n"
    using Uint16_PutUint16 [of n "[]"] assms by simp
  have hi: "Uint16 (PutUint16 (65535 - n)) = 65535 - n"
    using Uint16_PutUint16 [of "65535 - n" "[]"] assms by simp
  show ?thesis
    using assms lo hi by (simp add: dataBlock_def l ReadFull_def)
qed

lemma inflate_final_stored:
  "inflate huff out \<lparr>br_bits = [], br_rest = final_stored_block @ r\<rparr> = Inr (out, r)"
proof -
  have "dataBlock \<lparr>br_bits = replicate 5 False,
          br_rest = PutUint16 0 @ PutUint16 (65535 - 0) @ [] @ r\<rparr>
        = Inr ([], \<lparr>br_bits = [], br_rest = r\<rparr>)"
    by (rule dataBlock_stored) simp_all
  then show ?thesis
    by (subst inflate.simps) (simp add: final_stored_block_def block_header_1)
qed

lemma inflate_stored_blocks:
  "inflate huff out \<lparr>br_bits = [], br_rest = stored_blocks p @ final_stored_block @ r\<rparr>
     = Inr (out @ p, r)"
proof (induction p arbitrary: out rule: stored_blocks.induct)
  case (1 p)
  show ?case
  proof (cases "p = []")
    case True
    then show ?thesis
      by (simp add: inflate_final_stored stored_blocks_Nil)
  next
    case False
    define n where "n = min (length p) maxStoreBlockSize"
    define rest where "rest = stored_blocks (drop n p) @ final_stored_block @ r"
    have n: "n = length (take n p)" "n < 65536"
      using False by (auto simp: n_def maxStoreBlockSize_def)
    have unfold: "stored_blocks p @ final_stored_block @ r
        = 0 # PutUint16 n @ PutUint16 (65535 - n) @ take n p @ rest"
      using False by (subst stored_blocks.simps) (simp add: n_def rest_def Let_def)
    have block: "dataBlock \<lparr>br_bits = replicate 5 False,
          br_rest = PutUint16 n @ PutUint16 (65535 - n) @ take n p @ rest\<rparr>
        = Inr (take n p, \<lparr>br_bits = [], br_rest = rest\<rparr>)"
      using n by (rule dataBlock_stored)
    have next_blocks: "inflate huff (out @ take n p) \<lparr>br_bits = [], br_rest = rest\<rparr>
        = Inr (out @ p, r)"
      unfolding rest_def using "1.IH" [OF False n_def, of "out @ take n p"] by simp
    have consumed: "bits_left \<lparr>br_bits = [], br_rest = rest\<rparr>
        < bits_left \<lparr>br_bits = [],
            br_rest = 0 # PutUint16 n @ PutUint16 (65535 - n) @ take n p @ rest\<rparr>"
      by (simp add: bits_left_def)
    show ?thesis
      unfolding unfold
      by (subst inflate.simps) (simp add: block_header_0 block consumed next_blocks)
  qed
qed

lemma read_member_stored:
  "read_member huff (stored_blocks p @ final_stored_block
       @ PutUint32 (crc32_Update 0 p) @ PutUint32 (of_nat (length p)) @ r)
     = Inr (p, r)"
proof -
  have l: "length (PutUint32 v) = 4" for v
    by (simp add: PutUint32_def)
  have "inflate huff [] \<lparr>br_bits = [], br_rest = stored_blocks p @ final_stored_block
       @ PutUint32 (crc32_Update 0 p) @ PutUint32 (of_nat (length p)) @ r\<rparr>
     = Inr ([] @ p, PutUint32 (crc32_Update 0 p) @ PutUint32 (of_nat (length p)) @ r)"
    by (rule inflate_stored_blocks)
  then show ?thesis
    by (simp add: read_member_def ReadFull_def l Uint32_PutUint32)
qed

lemma compressConfig_gzip_model: "compressConfig (gzip_model huff) p = Inr (gzip_bytes p)"
  by (simp add: compressConfig_def gzip_model_def Writer_Write_def Writer_Close_def
      gzip_bytes_def)

lemma decompressConfig_gzip_bytes: "decompressConfig (gzip_model huff) (gzip_bytes p) = Inr p"
proof -
  have "read_member huff (stored_blocks p @ final_stored_block
       @ PutUint32 (crc32_Update 0 p) @ PutUint32 (of_nat (length p)) @ []) = Inr (p, [])"
    by (rule read_member_stored)
  then have "read_members huff [] (stored_blocks p @ final_stored_block
       @ PutUint32 (crc32_Update 0 p) @ PutUint32 (of_nat (length p))) = Inr p"
    by (subst read_members.simps) (simp add: readHeader_Nil)
  then show ?thesis
    by (simp add: decompressConfig_def gzip_model_def NewReader_def ReadAll_def gzip_bytes_def
        readHeader_gzip_header)
qed

lemma length_stored_blocks: "length p \<le> length (stored_blocks p)"
proof (induction p rule: stored_blocks.induct)
  case (1 p)
  show ?case
  proof (cases "p = []")
    case True
    then show ?thesis by simp
  next
    case False
    define n where "n = min (length p) maxStoreBlockSize"
    have "length (drop n p) \<le> length (stored_blocks (drop n p))"
      using "1.IH" [OF False n_def] .
    moreover have "stored_blocks p
        = [0] @ PutUint16 n @ PutUint16 (65535 - n) @ take n p @ stored_blocks (drop n p)"
      using False by (subst stored_blocks.simps) (simp add: n_def Let_def)
    ultimately show ?thesis
      by (simp add: n_def)
  qed
qed

lemma length_gzip_bytes: "length p + 23 \<le> length (gzip_bytes p)"
  using length_stored_blocks [of p]
  by (simp add: gzip_bytes_def gzip_header_def PutUint32_def final_stored_block_def
      PutUint16_def)

lemma length_gzip_bytes_one_block:
  assumes "p \<noteq> []" "length p \<le> 65535"
  shows "length (gzip_bytes p) = length p + 28"
proof -
  have "stored_blocks p = [0] @ PutUint16 (length p) @ PutUint16 (65535 - length p) @ p"
    using assms
    by (subst stored_blocks.simps) (simp add: Let_def maxStoreBlockSize_def stored_blocks_Nil)
  then show ?thesis
    by (simp add: gzip_bytes_def gzip_header_def PutUint32_def final_stored_block_def
        PutUint16_def)
qed

text \<open>
  Claim C2. For every byte sequence \<open>x\<close>, the empty one included, \<open>compressConfig\<close>
  succeeds and \<open>decompressConfig\<close> on its result succeeds and returns \<open>x\<close>, for the
  gzip model and whatever decodes compressed blocks.
\<close>

theorem codec_round_trip:
  "\<exists>c. compressConfig (gzip_model huff) x = Inr c
       \<and> decompressConfig (gzip_model huff) c = Inr x"
  by (simp add: compressConfig_gzip_model decompressConfig_gzip_bytes)

section \<open>Writing and reading back\<close>

lemma upsert_too_large:
  assumes "ValidateBackend w b = None" and "open_fault w b = None"
    and "compressConfig gz x = Inr c" and "MaxWindowsByteSize < length c"
    and "b = WinCredBackend"
  shows "UpsertConfigToKeyring gz w b x
     = (Some (too_large_error (length c)), logged w (CallOpen (getKeyringConfig b)))"
  using assms by (simp add: UpsertConfigToKeyring_def keyring_Open_ok)

lemma upsert_proceeds:
  assumes "ValidateBackend w b = None" and "open_fault w b = None"
    and "compressConfig gz x = Inr c"
    and "length c \<le> MaxWindowsByteSize \<or> b \<noteq> WinCredBackend"
  shows "UpsertConfigToKeyring gz w b x
     = ring_Set (logged w (CallOpen (getKeyringConfig b))) b (stored_item c)"
  using assms by (auto simp add: UpsertConfigToKeyring_def keyring_Open_ok)

lemma ring_Set_ok:
  "set_fault w b = None \<Longrightarrow>
   ring_Set w b i
     = (None, (logged w (CallSet b i))\<lparr>items := (items w)(b := (items w b)(Key i \<mapsto> i))\<rparr>)"
  by (simp add: ring_Set_def Let_def)

lemma too_large_error_text:
  "too_large_error n
     = Errorf (''credentials are too large for Windows Credential Manager: '' @ format_d n
               @ '' bytes (max 2500)'')"
  by (simp add: too_large_error_def MaxWindowsByteSize_def format_d.simps digit_char_def)

text \<open>
  Claim C4. Let the backend be valid and available, its store open, and the input compress
  to \<open>c\<close>. For the Windows Credential Manager backend, when \<open>c\<close> is longer than 2500
  bytes \<open>UpsertConfigToKeyring\<close> fails with the size-limit error, whose text gives the
  actual length and the maximum, and the store has seen the open only: nothing is written.
  When \<open>c\<close> has 2500 bytes or fewer the call is the write of \<open>c\<close>. For every other
  backend the call is the write of \<open>c\<close> whatever its length.
\<close>

theorem windows_size_limit:
  assumes "ValidateBackend w b = None" and "open_fault w b = None"
    and "compressConfig gz x = Inr c"
  shows "(b = WinCredBackend \<and> 2500 < length c \<longrightarrow>
            UpsertConfigToKeyring gz w b x
              = (Some (Errorf (''credentials are too large for Windows Credential Manager: ''
                               @ format_d (length c) @ '' bytes (max 2500)'')),
                 logged w (CallOpen (getKeyringConfig b))))
       \<and> (b = WinCredBackend \<and> length c \<le> 2500 \<longrightarrow>
            UpsertConfigToKeyring gz w b x
              = ring_Set (logged w (CallOpen (getKeyringConfig b))) b (stored_item c))
       \<and> (b \<noteq> WinCredBackend \<longrightarrow>
            UpsertConfigToKeyring gz w b x
              = ring_Set (logged w (CallOpen (getKeyringConfig b))) b (stored_item c))"
proof (intro conjI impI)
  assume "b = WinCredBackend \<and> 2500 < length c"
  then show "UpsertConfigToKeyring gz w b x
      = (Some (Errorf (''credentials are too large for Windows Credential Manager: ''
                       @ format_d (length c) @ '' bytes (max 2500)'')),
         logged w (CallOpen (getKeyringConfig b)))"
    using upsert_too_large [OF assms, of ] too_large_error_text [of "length c"]
    by (simp add: MaxWindowsByteSize_def)
next
  assume "b = WinCredBackend \<and> length c \<le> 2500"
  then show "UpsertConfigToKeyring gz w b x
      = ring_Set (logged w (CallOpen (getKeyringConfig b))) b (stored_item c)"
    using upsert_proceeds [OF assms] by (simp add: MaxWindowsByteSize_def)
next
  assume "b \<noteq> WinCredBackend"
  then show "UpsertConfigToKeyring gz w b x
      = ring_Set (logged w (CallOpen (getKeyringConfig b))) b (stored_item c)"
    using upsert_proceeds [OF assms] by simp
qed

lemma ValidateBackend_fresh:
  "b \<in> set AllowedBackends \<Longrightarrow> ValidateBackend (fresh_world [b]) b = None"
  by (simp add: ValidateBackend_None_iff fresh_world_def)

lemma fresh_world_fields [simp]:
  "os_backends (fresh_world bs) = bs"
  "open_fault (fresh_world bs) b = None"
  "get_fault (fresh_world bs) b = None"
  "set_fault (fresh_world bs) b = None"
  "remove_fault (fresh_world bs) b = None"
  "items (fresh_world bs) b = Map.empty"
  "calls (fresh_world bs) = []"
  by (simp_all add: fresh_world_def)

theorem windows_size_limit_witness:
  "ValidateBackend (fresh_world [''wincred'']) ''wincred'' = None
   \<and> compressConfig (gzip_model reject_compressed) (replicate 2473 0)
       = Inr (gzip_bytes (replicate 2473 0))
   \<and> length (gzip_bytes (replicate 2473 0)) = 2501
   \<and> UpsertConfigToKeyring (gzip_model reject_compressed) (fresh_world [''wincred''])
         ''wincred'' (replicate 2473 0)
       = (Some (Errorf
            ''credentials are too large for Windows Credential Manager: 2501 bytes (max 2500)''),
          logged (fresh_world [''wincred'']) (CallOpen (getKeyringConfig ''wincred'')))
   \<and> length (gzip_bytes (replicate 2472 0)) = 2500
   \<and> fst (UpsertConfigToKeyring (gzip_model reject_compressed) (fresh_world [''wincred''])
         ''wincred'' (replicate 2472 0)) = None
   \<and> fst (UpsertConfigToKeyring (gzip_model reject_compressed) (fresh_world [''pass''])
         ''pass'' (replicate 2473 0)) = None"
proof -
  let ?gz = "gzip_model reject_compressed"
  have v: "ValidateBackend (fresh_world [''wincred'']) ''wincred'' = None"
    "ValidateBackend (fresh_world [''pass'']) ''pass'' = None"
    by (simp_all add: ValidateBackend_fresh allowed_set)
  have o: "open_fault (fresh_world [''wincred'']) ''wincred'' = None"
    "open_fault (fresh_world [''pass'']) ''pass'' = None"
    by simp_all
  have c: "compressConfig ?gz (replicate 2473 0) = Inr (gzip_bytes (replicate 2473 0))"
    "compressConfig ?gz (replicate 2472 0) = Inr (gzip_bytes (replicate 2472 0))"
    by (simp_all add: compressConfig_gzip_model)
  have l: "length (gzip_bytes (replicate 2473 0)) = 2501"
    "length (gzip_bytes (replicate 2472 0)) = 2500"
    by (simp_all add: length_gzip_bytes_one_block)
  have d: "format_d 2501 = ''2501''"
    by (simp add: format_d.simps digit_char_def)
  show ?thesis
    using v(1) c(1) l
      windows_size_limit [OF v(1) o(1) c(1)]
      windows_size_limit [OF v(1) o(1) c(2)]
      windows_size_limit [OF v(2) o(2) c(1)]
    by (simp add: WinCredBackend_def ring_Set_ok d)
qed

lemma upsert_success:
  assumes "UpsertConfigToKeyring gz w b x = (None, w')"
  shows "ValidateBackend w b = None \<and> open_fault w b = None
       \<and> (\<exists>c. compressConfig gz x = Inr c
              \<and> w' = (logged (logged w (CallOpen (getKeyringConfig b)))
                        (CallSet b (stored_item c)))
                     \<lparr>items := (items w)(b := (items w b)(ItemKey \<mapsto> stored_item c))\<rparr>)"
proof -
  have v: "ValidateBackend w b = None"
    using assms by (auto simp: UpsertConfigToKeyring_def split: option.splits)
  have o: "open_fault w b = None"
    using assms v
    by (auto simp: UpsertConfigToKeyring_def keyring_Open_def getKeyringConfig_def
        split: option.splits)
  obtain c where c: "compressConfig gz x = Inr c"
    using assms v o
    by (cases "compressConfig gz x") (auto simp: UpsertConfigToKeyring_def keyring_Open_ok)
  have "ring_Set (logged w (CallOpen (getKeyringConfig b))) b (stored_item c) = (None, w')"
    using assms v o c
    by (auto simp: UpsertConfigToKeyring_def keyring_Open_ok split: if_splits)
  then have "w' = (logged (logged w (CallOpen (getKeyringConfig b)))
                        (CallSet b (stored_item c)))
                     \<lparr>items := (items w)(b := (items w b)(ItemKey \<mapsto> stored_item c))\<rparr>"
    by (auto simp: ring_Set_def Let_def stored_item_def split: option.splits)
  then show ?thesis
    using v o c by blast
qed

lemma get_after_upsert:
  assumes "UpsertConfigToKeyring gz w b x = (None, w')" and "get_fault w' b = None"
  shows "\<exists>c. compressConfig gz x = Inr c \<and> items w' b ItemKey = Some (stored_item c)
          \<and> fst (GetConfigFromKeyring gz w' b)
              = (if c = [] then Inr [] else decompressConfig gz c)"
proof -
  obtain c where v: "ValidateBackend w b = None" and o: "open_fault w b = None"
    and c: "compressConfig gz x = Inr c"
    and w': "w' = (logged (logged w (CallOpen (getKeyringConfig b)))
                        (CallSet b (stored_item c)))
                     \<lparr>items := (items w)(b := (items w b)(ItemKey \<mapsto> stored_item c))\<rparr>"
    using upsert_success [OF assms(1)] by blast
  have v': "ValidateBackend w' b = None"
    using v by (simp add: ValidateBackend_None_iff w')
  have o': "open_fault w' b = None"
    using o by (simp add: w')
  have i: "items w' b ItemKey = Some (stored_item c)"
    by (simp add: w')
  have "fst (GetConfigFromKeyring gz w' b) = (if c = [] then Inr [] else decompressConfig gz c)"
    using v' o' i assms(2)
    by (simp add: GetConfigFromKeyring_def keyring_Open_ok ring_Get_def stored_item_def
        split: sum.splits)
  then show ?thesis
    using c i by blast
qed

lemma upsert_fresh:
  assumes "b \<in> set AllowedBackends" and "b \<noteq> WinCredBackend"
  shows "fst (UpsertConfigToKeyring (gzip_model huff) (fresh_world [b]) b x) = None"
  using upsert_proceeds [OF ValidateBackend_fresh [OF assms(1)] _ compressConfig_gzip_model, of x huff]
    assms(2)
  by (simp add: ring_Set_ok)

text \<open>
  Claim C1. For every backend \<open>b\<close> and every byte sequence \<open>x\<close>: when
  \<open>UpsertConfigToKeyring\<close> succeeds, which it does only for a valid and available
  backend, the \<open>GetConfigFromKeyring\<close> that follows at once on the same backend, its get
  answered by the store, succeeds and returns \<open>x\<close>. The value in the store is the gzip of
  \<open>x\<close>, decompressed on the read.
\<close>

theorem upsert_then_get:
  assumes "UpsertConfigToKeyring (gzip_model huff) w b x = (None, w')"
    and "get_fault w' b = None"
  shows "fst (GetConfigFromKeyring (gzip_model huff) w' b) = Inr x"
proof -
  obtain c where c: "compressConfig (gzip_model huff) x = Inr c"
    and g: "fst (GetConfigFromKeyring (gzip_model huff) w' b)
              = (if c = [] then Inr [] else decompressConfig (gzip_model huff) c)"
    using get_after_upsert [OF assms] by blast
  have "c = gzip_bytes x"
    using c by (simp add: compressConfig_gzip_model)
  moreover have "gzip_bytes x \<noteq> []"
    using length_gzip_bytes [of x] by auto
  ultimately show ?thesis
    using g by (simp add: decompressConfig_gzip_bytes)
qed

theorem upsert_then_get_witness:
  "fst (UpsertConfigToKeyring (gzip_model reject_compressed) (fresh_world [''pass''])
          ''pass'' [1, 2, 3]) = None
   \<and> fst (GetConfigFromKeyring (gzip_model reject_compressed)
            (snd (UpsertConfigToKeyring (gzip_model reject_compressed)
                    (fresh_world [''pass'']) ''pass'' [1, 2, 3])) ''pass'') = Inr [1, 2, 3]"
proof -
  let ?u = "UpsertConfigToKeyring (gzip_model reject_compressed) (fresh_world [''pass''])
              ''pass'' [1, 2, 3]"
  have ok: "fst ?u = None"
    by (rule upsert_fresh) (simp_all add: allowed_set WinCredBackend_def)
  then have u: "?u = (None, snd ?u)"
    by (simp add: prod_eq_iff)
  have g: "get_fault (snd ?u) ''pass'' = None"
    using upsert_success [OF u] by auto
  show ?thesis
    using ok upsert_then_get [OF u g] by simp
qed

section \<open>Zero-length results\<close>

text \<open>
  Claim C10, as stated: a zero-length result of \<open>GetConfigFromKeyring\<close> shows that no
  item written by \<open>UpsertConfigToKeyring\<close> exists. It fails for empty credentials: the
  upsert of the empty sequence succeeds and leaves an item under the fixed key, and the get
  that follows returns a zero-length result.
\<close>

theorem empty_credentials_read_back_empty:
  "fst (UpsertConfigToKeyring (gzip_model reject_compressed) (fresh_world [''pass''])
          ''pass'' []) = None
   \<and> items (snd (UpsertConfigToKeyring (gzip_model reject_compressed)
                   (fresh_world [''pass'']) ''pass'' [])) ''pass'' ItemKey
       = Some (stored_item (gzip_bytes []))
   \<and> fst (GetConfigFromKeyring (gzip_model reject_compressed)
            (snd (UpsertConfigToKeyring (gzip_model reject_compressed)
                    (fresh_world [''pass'']) ''pass'' [])) ''pass'') = Inr []"
proof -
  let ?gz = "gzip_model reject_compressed"
  let ?u = "UpsertConfigToKeyring ?gz (fresh_world [''pass'']) ''pass'' []"
  have ok: "fst ?u = None"
    by (rule upsert_fresh) (simp_all add: allowed_set WinCredBackend_def)
  then have u: "?u = (None, snd ?u)"
    by (simp add: prod_eq_iff)
  have g: "get_fault (snd ?u) ''pass'' = None"
    using upsert_success [OF u] by auto
  obtain c where c: "compressConfig ?gz [] = Inr c"
    and i: "items (snd ?u) ''pass'' ItemKey = Some (stored_item c)"
    and r: "fst (GetConfigFromKeyring ?gz (snd ?u) ''pass'')
              = (if c = [] then Inr [] else decompressConfig ?gz c)"
    using get_after_upsert [OF u g] by blast
  have "c = gzip_bytes []"
    using c by (simp add: compressConfig_gzip_model)
  then show ?thesis
    using ok i r by (simp add: decompressConfig_gzip_bytes)
qed

text \<open>
  Claim C10, amended. For every input, the empty one included, \<open>compressConfig\<close>
  returns a non-empty byte sequence; so the item that a successful
  \<open>UpsertConfigToKeyring\<close> leaves in the store has non-empty data, and a
  \<open>GetConfigFromKeyring\<close> that follows at once, its get answered by the store, returns a
  zero-length result only when the credentials written were themselves empty.
\<close>

theorem stored_blob_nonempty:
  "(\<exists>c. compressConfig (gzip_model huff) x = Inr c \<and> c \<noteq> [])
   \<and> (UpsertConfigToKeyring (gzip_model huff) w b x = (None, w') \<longrightarrow>
        (\<exists>i. items w' b ItemKey = Some i \<and> Data i \<noteq> [])
        \<and> (get_fault w' b = None
             \<and> fst (GetConfigFromKeyring (gzip_model huff) w' b) = Inr [] \<longrightarrow> x = []))"
proof (intro conjI impI)
  have ne: "gzip_bytes x \<noteq> []"
    using length_gzip_bytes [of x] by auto
  then show "\<exists>c. compressConfig (gzip_model huff) x = Inr c \<and> c \<noteq> []"
    by (simp add: compressConfig_gzip_model)
  {
    assume u: "UpsertConfigToKeyring (gzip_model huff) w b x = (None, w')"
    obtain c where c: "compressConfig (gzip_model huff) x = Inr c"
      and w': "w' = (logged (logged w (CallOpen (getKeyringConfig b)))
                        (CallSet b (stored_item c)))
                     \<lparr>items := (items w)(b := (items w b)(ItemKey \<mapsto> stored_item c))\<rparr>"
      using upsert_success [OF u] by blast
    have "c = gzip_bytes x"
      using c by (simp add: compressConfig_gzip_model)
    then show "\<exists>i. items w' b ItemKey = Some i \<and> Data i \<noteq> []"
      using ne by (simp add: w' stored_item_def)
    assume "get_fault w' b = None
             \<and> fst (GetConfigFromKeyring (gzip_model huff) w' b) = Inr []"
    then have g: "get_fault w' b = None"
      and z: "fst (GetConfigFromKeyring (gzip_model huff) w' b) = Inr []"
      by simp_all
    obtain c' where c': "compressConfig (gzip_model huff) x = Inr c'"
      and r: "fst (GetConfigFromKeyring (gzip_model huff) w' b)
                = (if c' = [] then Inr [] else decompressConfig (gzip_model huff) c')"
      using get_after_upsert [OF u g] by blast
    have "c' = gzip_bytes x"
      using c' by (simp add: compressConfig_gzip_model)
    then show "x = []"
      using r z ne by (simp add: decompressConfig_gzip_bytes)
  }
qed

theorem stored_blob_nonempty_witness:
  "UpsertConfigToKeyring (gzip_model reject_compressed) (fresh_world [''keychain''])
      ''keychain'' [1, 2, 3]
     = (None, snd (UpsertConfigToKeyring (gzip_model reject_compressed)
                     (fresh_world [''keychain'']) ''keychain'' [1, 2, 3]))
   \<and> (\<exists>i. items (snd (UpsertConfigToKeyring (gzip_model reject_compressed)
                         (fresh_world [''keychain'']) ''keychain'' [1, 2, 3]))
               ''keychain'' ItemKey = Some i \<and> Data i \<noteq> [])
   \<and> get_fault (snd (UpsertConfigToKeyring (gzip_model reject_compressed)
                       (fresh_world [''keychain'']) ''keychain'' [1, 2, 3])) ''keychain'' = None
   \<and> fst (GetConfigFromKeyring (gzip_model reject_compressed)
            (snd (UpsertConfigToKeyring (gzip_model reject_compressed)
                    (fresh_world [''keychain'']) ''keychain'' [1, 2, 3])) ''keychain'')
       \<noteq> Inr []"
proof -
  let ?gz = "gzip_model reject_compressed"
  let ?u = "UpsertConfigToKeyring ?gz (fresh_world [''keychain'']) ''keychain'' [1, 2, 3]"
  have "fst ?u = None"
    by (rule upsert_fresh) (simp_all add: allowed_set WinCredBackend_def)
  then have u: "?u = (None, snd ?u)"
    by (simp add: prod_eq_iff)
  have g: "get_fault (snd ?u) ''keychain'' = None"
    using upsert_success [OF u] by auto
  show ?thesis
    using u g
      stored_blob_nonempty [of reject_compressed "[1, 2, 3]" "fresh_world [''keychain'']"
        "''keychain''" "snd ?u"]
    by auto
qed

end
